theory Spec2Isabelle
  imports Complex_Main
begin

section \<open>Circuit breaker (circuit-breaker.ts)\<close>

text \<open>
  The class \<^verbatim>\<open>CircuitBreaker\<close> is a record of its private fields; every method takes
  the object and returns the updated object (explicit state passing). \<^verbatim>\<open>Date.now()\<close>
  is an explicit argument \<open>now\<close> (milliseconds, an integer). The counters are JavaScript
  numbers that are only ever incremented by one from zero, so they are modelled as
  unbounded integers; the thresholds of the configuration are taken to be integers.
  The logger calls have no effect on the state and are left out.
\<close>

datatype CircuitState = Closed | Open | HalfOpen

record CircuitBreakerConfig =
  failureThreshold :: int
  resetTimeout :: int
  successThreshold :: int

definition DEFAULT_CONFIG :: CircuitBreakerConfig where
  "DEFAULT_CONFIG = \<lparr>failureThreshold = 3, resetTimeout = 30000, successThreshold = 1\<rparr>"

record CircuitBreaker =
  state :: CircuitState
  failures :: int
  successes :: int
  lastFailureTime :: int
  config :: CircuitBreakerConfig

text \<open>\<^verbatim>\<open>new CircuitBreaker(config, logger)\<close> with the configuration already merged
  over \<^verbatim>\<open>DEFAULT_CONFIG\<close>.\<close>

definition newCircuitBreaker :: "CircuitBreakerConfig \<Rightarrow> CircuitBreaker" where
  "newCircuitBreaker cfg =
     \<lparr>state = Closed, failures = 0, successes = 0, lastFailureTime = 0, config = cfg\<rparr>"

definition isOpen :: "int \<Rightarrow> CircuitBreaker \<Rightarrow> bool \<times> CircuitBreaker" where
  "isOpen now b =
     (if state b = Closed then (False, b)
      else if state b = Open then
        (if now - lastFailureTime b \<ge> resetTimeout (config b)
         then (False, b\<lparr>state := HalfOpen, successes := 0\<rparr>)
         else (True, b))
      else (False, b))"

definition reset :: "CircuitBreaker \<Rightarrow> CircuitBreaker" where
  "reset b = b\<lparr>state := Closed, failures := 0, successes := 0, lastFailureTime := 0\<rparr>"

definition recordSuccess :: "CircuitBreaker \<Rightarrow> CircuitBreaker" where
  "recordSuccess b =
     (if state b = HalfOpen then
        (let b1 = b\<lparr>successes := successes b + 1\<rparr>
         in if successes b1 \<ge> successThreshold (config b1) then reset b1 else b1)
      else if state b = Closed then b\<lparr>failures := 0\<rparr>
      else b)"

definition recordFailure :: "int \<Rightarrow> CircuitBreaker \<Rightarrow> CircuitBreaker" where
  "recordFailure now b =
     (let b1 = b\<lparr>failures := failures b + 1, lastFailureTime := now\<rparr>
      in if state b1 = HalfOpen then b1\<lparr>state := Open\<rparr>
         else if failures b1 \<ge> failureThreshold (config b1) then b1\<lparr>state := Open\<rparr>
         else b1)"

text \<open>A run of \<^verbatim>\<open>recordFailure()\<close> calls with nothing between them, at the given times.\<close>

fun recordFailures :: "int list \<Rightarrow> CircuitBreaker \<Rightarrow> CircuitBreaker" where
  "recordFailures [] b = b"
| "recordFailures (t # ts) b = recordFailures ts (recordFailure t b)"

text \<open>Any history of method calls on one breaker.\<close>

datatype BreakerCall = IsOpen int | RecordSuccess | RecordFailure int | Reset

fun breakerCall :: "BreakerCall \<Rightarrow> CircuitBreaker \<Rightarrow> CircuitBreaker" where
  "breakerCall (IsOpen now) b = snd (isOpen now b)"
| "breakerCall RecordSuccess b = recordSuccess b"
| "breakerCall (RecordFailure now) b = recordFailure now b"
| "breakerCall Reset b = reset b"

fun breakerCalls :: "BreakerCall list \<Rightarrow> CircuitBreaker \<Rightarrow> CircuitBreaker" where
  "breakerCalls [] b = b"
| "breakerCalls (c # cs) b = breakerCalls cs (breakerCall c b)"

text \<open>
  Two breakers agree on everything that is meaningful in their state: the state itself,
  the time stamp and the configuration, the failure counter when Closed and the success
  counter when Half-Open.
\<close>

definition sameMeaning :: "CircuitBreaker \<Rightarrow> CircuitBreaker \<Rightarrow> bool" where
  "sameMeaning b1 b2 =
     (state b1 = state b2 \<and> lastFailureTime b1 = lastFailureTime b2 \<and> config b1 = config b2 \<and>
      (if state b1 = Closed then failures b1 = failures b2 else True) \<and>
      (if state b1 = HalfOpen then successes b1 = successes b2 else True))"

section \<open>Shared result types (types.ts)\<close>

text \<open>
  \<^verbatim>\<open>Record<string, unknown>\<close> is an association list of keys and values; an optional
  field is an \<open>option\<close>. A thrown \<^verbatim>\<open>Error\<close> is a value carrying its message.
\<close>

type_synonym jsdata = "(string \<times> string) list"

datatype error = Error string

record AIResult =
  known :: bool
  data :: "jsdata option"
  confidence :: "real option"
  fallback :: "bool option"

datatype LearnStatus = accepted | rejected | flagged

record LearnResponse =
  status :: LearnStatus
  learned :: int

text \<open>The object literals the source returns in several places.\<close>

definition UNKNOWN :: AIResult where
  "UNKNOWN = \<lparr>known = False, data = None, confidence = None, fallback = None\<rparr>"

definition FALLBACK :: AIResult where
  "FALLBACK = \<lparr>known = False, data = None, confidence = None, fallback = Some True\<rparr>"

definition REJECTED :: LearnResponse where
  "REJECTED = \<lparr>status = rejected, learned = 0\<rparr>"

section \<open>Request batcher (batch.ts)\<close>

text \<open>
  A \<^verbatim>\<open>PendingRequest\<close> carries the URL and the \<^verbatim>\<open>resolve\<close>/\<^verbatim>\<open>reject\<close> callbacks of
  one caller's promise; the callbacks are represented by the identity of that caller,
  and calling one of them is recorded in the log \<open>settlements\<close>.
\<close>

record PendingRequest =
  url :: string
  caller :: nat

datatype Settlement = Resolve AIResult | Reject error

record BatchConfig =
  maxSize :: int
  maxWait :: int

definition DEFAULT_BATCH_CONFIG :: BatchConfig where
  "DEFAULT_BATCH_CONFIG = \<lparr>maxSize = 50, maxWait = 50\<rparr>"

text \<open>
  The batcher object (\<open>queue\<close>, \<open>flushTimeout\<close>, \<open>batchConfig\<close>) together with the part of
  the event loop it acts on: the armed timers (handle and delay), the flushes suspended at
  \<^verbatim>\<open>await this.executor(urls)\<close> (call number and the batch they hold), the log of executor
  invocations (the call number is the position in the log) and the log of settlements.
\<close>

record RequestBatcher =
  queue :: "PendingRequest list"
  flushTimeout :: "nat option"
  batchConfig :: BatchConfig
  timers :: "(nat \<times> int) list"
  nextHandle :: nat
  inFlight :: "(nat \<times> PendingRequest list) list"
  executorCalls :: "string list list"
  settlements :: "(nat \<times> Settlement) list"

definition newRequestBatcher :: "BatchConfig \<Rightarrow> RequestBatcher" where
  "newRequestBatcher cfg =
     \<lparr>queue = [], flushTimeout = None, batchConfig = cfg, timers = [], nextHandle = 0,
      inFlight = [], executorCalls = [], settlements = []\<rparr>"

definition setTimeout :: "int \<Rightarrow> RequestBatcher \<Rightarrow> nat \<times> RequestBatcher" where
  "setTimeout delay w =
     (nextHandle w,
      w\<lparr>timers := timers w @ [(nextHandle w, delay)], nextHandle := Suc (nextHandle w)\<rparr>)"

definition clearTimeout :: "nat \<Rightarrow> RequestBatcher \<Rightarrow> RequestBatcher" where
  "clearTimeout h w = w\<lparr>timers := filter (\<lambda>t. fst t \<noteq> h) (timers w)\<rparr>"

text \<open>
  \<^verbatim>\<open>flush()\<close> up to its \<^verbatim>\<open>await\<close>: the timer held in \<open>flushTimeout\<close> is cleared,
  \<^verbatim>\<open>queue.splice(0, maxSize)\<close> takes the batch (a negative count removes nothing), and
  the executor is called with the batch's URLs.
\<close>

definition flush :: "RequestBatcher \<Rightarrow> RequestBatcher" where
  "flush w0 =
     (let w = (case flushTimeout w0 of
                 Some h \<Rightarrow> (clearTimeout h w0)\<lparr>flushTimeout := None\<rparr>
               | None \<Rightarrow> w0)
      in if length (queue w) = 0 then w
         else
           (let batch = take (nat (maxSize (batchConfig w))) (queue w);
                w1 = w\<lparr>queue := drop (nat (maxSize (batchConfig w))) (queue w)\<rparr>;
                urls = map url batch
            in w1\<lparr>inFlight := inFlight w1 @ [(length (executorCalls w1), batch)],
                  executorCalls := executorCalls w1 @ [urls]\<rparr>))"

text \<open>The two loops over the batch after the executor has settled.\<close>

fun resolveAll :: "(string \<rightharpoonup> AIResult) \<Rightarrow> PendingRequest list \<Rightarrow> (nat \<times> Settlement) list" where
  "resolveAll results [] = []"
| "resolveAll results (request # rest) =
     (case results (url request) of
        Some result \<Rightarrow> (caller request, Resolve result)
      | None \<Rightarrow> (caller request, Resolve UNKNOWN)) # resolveAll results rest"

fun rejectAll :: "error \<Rightarrow> PendingRequest list \<Rightarrow> (nat \<times> Settlement) list" where
  "rejectAll e [] = []"
| "rejectAll e (request # rest) = (caller request, Reject e) # rejectAll e rest"

text \<open>
  \<^verbatim>\<open>flush()\<close> from its \<^verbatim>\<open>await\<close> on, when the executor call \<open>cid\<close> has settled with
  \<open>outcome\<close> (\<open>Inl\<close> a rejection, \<open>Inr\<close> the returned map).
\<close>

definition flushResume ::
  "nat \<Rightarrow> error + (string \<rightharpoonup> AIResult) \<Rightarrow> RequestBatcher \<Rightarrow> RequestBatcher" where
  "flushResume cid outcome w =
     (case map_of (inFlight w) cid of
        None \<Rightarrow> w
      | Some batch \<Rightarrow>
          (let w1 = w\<lparr>inFlight := filter (\<lambda>f. fst f \<noteq> cid) (inFlight w),
                       settlements := settlements w @
                         (case outcome of
                            Inr results \<Rightarrow> resolveAll results batch
                          | Inl e \<Rightarrow> rejectAll e batch)\<rparr>
           in if length (queue w1) > 0
              then (case setTimeout (maxWait (batchConfig w1)) w1 of
                      (h, w2) \<Rightarrow> w2\<lparr>flushTimeout := Some h\<rparr>)
              else w1))"

text \<open>\<^verbatim>\<open>query(url)\<close> of the batcher, called on behalf of caller \<open>c\<close>.\<close>

definition batcherQuery :: "string \<Rightarrow> nat \<Rightarrow> RequestBatcher \<Rightarrow> RequestBatcher" where
  "batcherQuery u c w0 =
     (let w = w0\<lparr>queue := queue w0 @ [\<lparr>url = u, caller = c\<rparr>]\<rparr>
      in if int (length (queue w)) \<ge> maxSize (batchConfig w) then flush w
         else if flushTimeout w = None
           then (case setTimeout (maxWait (batchConfig w)) w of
                   (h, w1) \<Rightarrow> w1\<lparr>flushTimeout := Some h\<rparr>)
           else w)"

fun resolveFallback :: "PendingRequest list \<Rightarrow> (nat \<times> Settlement) list" where
  "resolveFallback [] = []"
| "resolveFallback (request # rest) = (caller request, Resolve FALLBACK) # resolveFallback rest"

definition clear :: "RequestBatcher \<Rightarrow> RequestBatcher" where
  "clear w0 =
     (let w = (case flushTimeout w0 of
                 Some h \<Rightarrow> (clearTimeout h w0)\<lparr>flushTimeout := None\<rparr>
               | None \<Rightarrow> w0)
      in w\<lparr>settlements := settlements w @ resolveFallback (queue w), queue := []\<rparr>)"

text \<open>An armed timer fires: it leaves the timer table and its callback calls \<^verbatim>\<open>flush()\<close>.\<close>

definition timerFires :: "nat \<Rightarrow> RequestBatcher \<Rightarrow> RequestBatcher" where
  "timerFires h w =
     (if h \<in> fst ` set (timers w)
      then flush (w\<lparr>timers := filter (\<lambda>t. fst t \<noteq> h) (timers w)\<rparr>)
      else w)"

text \<open>What can happen to a batcher, one event at a time on the single thread.\<close>

datatype BatcherEvent =
    Query string nat
  | TimerFires nat
  | ExecutorDone nat "error + (string \<rightharpoonup> AIResult)"
  | Clear

fun batcherStep :: "BatcherEvent \<Rightarrow> RequestBatcher \<Rightarrow> RequestBatcher" where
  "batcherStep (Query u c) w = batcherQuery u c w"
| "batcherStep (TimerFires h) w = timerFires h w"
| "batcherStep (ExecutorDone cid outcome) w = flushResume cid outcome w"
| "batcherStep Clear w = clear w"

fun batcherRun :: "BatcherEvent list \<Rightarrow> RequestBatcher \<Rightarrow> RequestBatcher" where
  "batcherRun [] w = w"
| "batcherRun (e # es) w = batcherRun es (batcherStep e w)"

text \<open>Events during which no timer fires: arrivals and executor completions.\<close>

fun beforeMaxWait :: "BatcherEvent \<Rightarrow> bool" where
  "beforeMaxWait (Query u c) = True"
| "beforeMaxWait (ExecutorDone cid outcome) = True"
| "beforeMaxWait (TimerFires h) = False"
| "beforeMaxWait Clear = False"

fun arrivals :: "BatcherEvent list \<Rightarrow> string list" where
  "arrivals [] = []"
| "arrivals (Query u c # es) = u # arrivals es"
| "arrivals (e # es) = arrivals es"

section \<open>Knowledge client (client.ts)\<close>

text \<open>
  The client holds its resolved configuration (\<^verbatim>\<open>learning: config.learning ?? true\<close>, the
  optional \<^verbatim>\<open>extractForLearning\<close> callback, which may throw) and its circuit breaker.
  A method returns what it returns or throws (\<open>Inl\<close> would be a throw), the updated client
  and the calls it made to its collaborators. The settled outcome of the promise of
  \<^verbatim>\<open>this.batcher.query(url)\<close> and of \<^verbatim>\<open>this.makeRequest('/v1/learn', ...)\<close> are
  arguments: \<open>Inl\<close> a rejection (network error, timeout, non-2xx), \<open>Inr\<close> the value.
\<close>

record FetchBrainClient =
  configLearning :: bool
  extractForLearning :: "(jsdata \<Rightarrow> error + jsdata) option"
  circuitBreaker :: CircuitBreaker

datatype ClientCall = BatcherQueryCall string | LearnRequestCall string jsdata

definition clientQuery ::
  "int \<Rightarrow> string \<Rightarrow> (string \<Rightarrow> error + AIResult) \<Rightarrow> FetchBrainClient
     \<Rightarrow> (error + AIResult) \<times> FetchBrainClient \<times> ClientCall list" where
  "clientQuery now u batcherOutcome c =
     (case isOpen now (circuitBreaker c) of
        (opn, cb) \<Rightarrow>
          if opn then (Inr FALLBACK, c\<lparr>circuitBreaker := cb\<rparr>, [])
          else (case batcherOutcome u of
                  Inr result \<Rightarrow> (Inr result, c\<lparr>circuitBreaker := cb\<rparr>, [BatcherQueryCall u])
                | Inl e \<Rightarrow> (Inr FALLBACK, c\<lparr>circuitBreaker := cb\<rparr>, [BatcherQueryCall u])))"

text \<open>\<open>now\<close> is the clock at the \<^verbatim>\<open>isOpen()\<close> check, \<open>later\<close> the clock in the catch block.\<close>

definition learn ::
  "int \<Rightarrow> int \<Rightarrow> string \<Rightarrow> jsdata \<Rightarrow> (string \<Rightarrow> jsdata \<Rightarrow> error + LearnResponse)
     \<Rightarrow> FetchBrainClient \<Rightarrow> (error + LearnResponse) \<times> FetchBrainClient \<times> ClientCall list" where
  "learn now later u d makeRequest c =
     (if \<not> configLearning c then (Inr REJECTED, c, [])
      else
        (case isOpen now (circuitBreaker c) of
           (opn, cb) \<Rightarrow>
             if opn then (Inr REJECTED, c\<lparr>circuitBreaker := cb\<rparr>, [])
             else
               (case (case extractForLearning c of Some f \<Rightarrow> f d | None \<Rightarrow> Inr d) of
                  Inl e \<Rightarrow> (Inr REJECTED, c\<lparr>circuitBreaker := recordFailure later cb\<rparr>, [])
                | Inr extractedData \<Rightarrow>
                    (case makeRequest u extractedData of
                       Inr response \<Rightarrow>
                         (Inr response, c\<lparr>circuitBreaker := recordSuccess cb\<rparr>,
                          [LearnRequestCall u extractedData])
                     | Inl e \<Rightarrow>
                         (Inr REJECTED, c\<lparr>circuitBreaker := recordFailure later cb\<rparr>,
                          [LearnRequestCall u extractedData])))))"

section \<open>Handler wrapper and request scope (enhance.ts)\<close>

text \<open>\<^verbatim>\<open>alwaysRun?: boolean | string | string[]\<close> and \<^verbatim>\<open>learning?: boolean\<close>.\<close>

datatype AlwaysRun = Flag bool | Label string | Labels "string list"

record FetchBrainConfig =
  learning :: "bool option"
  alwaysRun :: "AlwaysRun option"

definition shouldRunHandler :: "AlwaysRun option \<Rightarrow> string option \<Rightarrow> bool" where
  "shouldRunHandler alwaysRunOpt labelOpt =
     (if alwaysRunOpt = None \<or> alwaysRunOpt = Some (Flag False) then False
      else if alwaysRunOpt = Some (Flag True) then True
      else
        (let labels = (case alwaysRunOpt of Some (Labels ls) \<Rightarrow> ls | Some (Label l) \<Rightarrow> [l] | _ \<Rightarrow> []);
             requestLabel = (case labelOpt of Some l \<Rightarrow> if l = [] then ''default'' else l
                                            | None \<Rightarrow> ''default'')
         in requestLabel \<in> set labels))"

text \<open>The ambient record of \<^verbatim>\<open>asyncContext\<close> (the client is the one client of the wrapper).\<close>

record RequestContext =
  ctxUrl :: string
  ctxLearning :: bool
  aiKnown :: bool

text \<open>
  What the wrapper and the code it runs do to the outside: a call of \<^verbatim>\<open>client.learn\<close>,
  a call of the request's own \<^verbatim>\<open>pushData\<close> (the data sink), a call of a dataset's
  \<^verbatim>\<open>open\<close> or \<^verbatim>\<open>pushData\<close>, and the invocation of the original handler.
\<close>

datatype PushArg = One jsdata | Many "jsdata list"

datatype Effect =
    Learn string jsdata
  | SinkPush jsdata
  | DatasetOpen string
  | DatasetPush PushArg
  | HandlerEntered

text \<open>
  A dataset: whether it has an \<^verbatim>\<open>open\<close> method, and the error its \<^verbatim>\<open>pushData\<close> (or that
  of the named dataset it opens) throws, if any.
\<close>

record DatasetLike =
  canOpen :: bool
  pushResult :: "error option"

fun itemsOf :: "PushArg \<Rightarrow> jsdata list" where
  "itemsOf (Many ds) = ds"
| "itemsOf (One d) = [d]"

text \<open>
  The exported \<^verbatim>\<open>pushData(data, dataset, datasetName)\<close>; \<open>ctx\<close> is what
  \<^verbatim>\<open>getCurrentContext()\<close> returns. It returns the effects and the error it throws, if any.
\<close>

definition pushData ::
  "RequestContext option \<Rightarrow> PushArg \<Rightarrow> DatasetLike \<Rightarrow> string option
     \<Rightarrow> Effect list \<times> error option" where
  "pushData ctx dat dataset datasetName =
     (let taught = (case ctx of
                      Some c \<Rightarrow> if ctxLearning c \<and> \<not> aiKnown c
                                then map (Learn (ctxUrl c)) (itemsOf dat) else []
                    | None \<Rightarrow> [])
      in case datasetName of
           Some n \<Rightarrow>
             if n \<noteq> [] \<and> canOpen dataset
             then (taught @ [DatasetOpen n, DatasetPush dat], pushResult dataset)
             else (taught @ [DatasetPush dat], pushResult dataset)
         | None \<Rightarrow> (taught @ [DatasetPush dat], pushResult dataset))"

text \<open>
  The variables the closures of \<^verbatim>\<open>wrappedHandler\<close> capture: the URL, the query result,
  the saved \<^verbatim>\<open>context.pushData\<close> (absent, or the sink with the outcome of each call),
  whether \<^verbatim>\<open>context.pushData\<close> has been replaced by the interceptor, and the ambient
  record. The mutable \<^verbatim>\<open>usedAIData\<close> is threaded as a boolean.
\<close>

record Closure =
  clUrl :: string
  aiResult :: AIResult
  originalPushData :: "(jsdata \<Rightarrow> error option) option"
  intercepting :: bool
  requestContext :: RequestContext

definition useAIData :: "Closure \<Rightarrow> bool \<Rightarrow> bool \<times> Effect list \<times> error option" where
  "useAIData cl usedAIData =
     (case (data (aiResult cl), originalPushData cl) of
        (Some d, Some sink) \<Rightarrow>
          if known (aiResult cl) then (True, [SinkPush d], sink d) else (usedAIData, [], None)
      | _ \<Rightarrow> (usedAIData, [], None))"

text \<open>
  A call of \<^verbatim>\<open>context.pushData(data)\<close> from the handler: the interceptor when it was
  installed, the original sink otherwise, a \<^verbatim>\<open>TypeError\<close> when the context has none.
\<close>

definition contextPushData :: "Closure \<Rightarrow> bool \<Rightarrow> jsdata \<Rightarrow> Effect list \<times> error option" where
  "contextPushData cl usedAIData d =
     (case originalPushData cl of
        None \<Rightarrow> ([], Some (Error ''TypeError: context.pushData is not a function''))
      | Some sink \<Rightarrow>
          if intercepting cl then
            (let shouldLearn = (\<not> usedAIData \<and> \<not> known (aiResult cl))
             in ((if shouldLearn then [Learn (clUrl cl) d] else []) @ [SinkPush d], sink d))
          else ([SinkPush d], sink d))"

text \<open>
  The original handler is arbitrary user code. It is a tree of the calls it makes to the
  capabilities the wrapper gives it; after each call it continues according to whether
  the call threw.
\<close>

datatype Handler =
    Return
  | Throw error
  | ContextPushData jsdata "error option \<Rightarrow> Handler"
  | UseAIData "error option \<Rightarrow> Handler"
  | DatasetPushData PushArg DatasetLike "string option" "error option \<Rightarrow> Handler"

primrec runHandler :: "Handler \<Rightarrow> Closure \<Rightarrow> bool \<Rightarrow> Effect list \<times> error option" where
  "runHandler Return cl usedAIData = ([], None)"
| "runHandler (Throw e) cl usedAIData = ([], Some e)"
| "runHandler (ContextPushData d k) cl usedAIData =
     (case contextPushData cl usedAIData d of
        (es, r) \<Rightarrow> (case runHandler (k r) cl usedAIData of (es', r') \<Rightarrow> (es @ es', r')))"
| "runHandler (UseAIData k) cl usedAIData =
     (case useAIData cl usedAIData of
        (used', es, r) \<Rightarrow> (case runHandler (k r) cl used' of (es', r') \<Rightarrow> (es @ es', r')))"
| "runHandler (DatasetPushData dat dataset datasetName k) cl usedAIData =
     (case pushData (Some (requestContext cl)) dat dataset datasetName of
        (es, r) \<Rightarrow> (case runHandler (k r) cl usedAIData of (es', r') \<Rightarrow> (es @ es', r')))"

record RequestHandlerContext =
  requestUrl :: string
  requestLabel :: "string option"
  contextPushDataField :: "(jsdata \<Rightarrow> error option) option"

text \<open>
  \<^verbatim>\<open>wrappedHandler(context)\<close> after \<^verbatim>\<open>client.query(url)\<close> has returned \<open>ai\<close>. The
  original handler sees \<^verbatim>\<open>context.ai\<close>, so it is a function of \<open>ai\<close>. The result is
  the effects in order and the error the wrapper rethrows, if any. Telemetry and the
  scrape-context headers are outside the model.
\<close>

definition wrappedHandler ::
  "FetchBrainConfig \<Rightarrow> AIResult \<Rightarrow> RequestHandlerContext \<Rightarrow> (AIResult \<Rightarrow> Handler)
     \<Rightarrow> Effect list \<times> error option" where
  "wrappedHandler cfg ai context originalHandler =
     (let runIt = shouldRunHandler (alwaysRun cfg) (requestLabel context)
      in if known ai \<and> data ai \<noteq> None \<and> \<not> runIt then
           (case (contextPushDataField context, data ai) of
              (Some sink, Some d) \<Rightarrow> ([SinkPush d], sink d)
            | _ \<Rightarrow> ([], None))
         else
           (let cl = \<lparr>clUrl = requestUrl context, aiResult = ai,
                      originalPushData = contextPushDataField context,
                      intercepting = (contextPushDataField context \<noteq> None \<and>
                                      learning cfg \<noteq> Some False),
                      requestContext = \<lparr>ctxUrl = requestUrl context,
                                         ctxLearning = (learning cfg \<noteq> Some False),
                                         aiKnown = known ai\<rparr>\<rparr>
            in case runHandler (originalHandler ai) cl False of
                 (es, r) \<Rightarrow> (HandlerEntered # es, r)))"



fun sinkPushes :: "Effect list \<Rightarrow> jsdata list" where
  "sinkPushes [] = []"
| "sinkPushes (SinkPush d # es) = d # sinkPushes es"
| "sinkPushes (e # es) = sinkPushes es"

section \<open>Invariant of the batcher while no timer fires\<close>

text \<open>
  The executor calls made so far followed by the URLs still queued are the URLs that
  have arrived, in order; every call made so far carries exactly \<open>maxSize\<close> URLs; fewer
  than \<open>maxSize\<close> URLs are queued; and the timer held in \<open>flushTimeout\<close> is armed with delay
  \<open>maxWait\<close>, while with no timer held the queue is empty.
\<close>

definition chunkInv :: "BatchConfig \<Rightarrow> string list \<Rightarrow> RequestBatcher \<Rightarrow> bool" where
  "chunkInv cfg arrived w =
     (batchConfig w = cfg \<and>
      concat (executorCalls w) @ map url (queue w) = arrived \<and>
      list_all (\<lambda>c. int (length c) = maxSize cfg) (executorCalls w) \<and>
      int (length (queue w)) < maxSize cfg \<and>
      (case flushTimeout w of
         Some h \<Rightarrow> (h, maxWait cfg) \<in> set (timers w)
       | None \<Rightarrow> queue w = []))"

section \<open>Properties of the circuit breaker\<close>

lemmas breaker_defs = isOpen_def recordSuccess_def recordFailure_def reset_def newCircuitBreaker_def

lemma recordFailures_snoc:
  "recordFailures (ts @ [t]) b = recordFailure t (recordFailures ts b)"
  by (induction ts arbitrary: b) simp_all

lemma recordFailures_below:
  "state b = Closed \<Longrightarrow> failures b + int (length ts) < failureThreshold (config b) \<Longrightarrow>
   state (recordFailures ts b) = Closed \<and>
   failures (recordFailures ts b) = failures b + int (length ts) \<and>
   config (recordFailures ts b) = config b"
proof (induction ts arbitrary: b)
  case Nil
  then show ?case by simp
next
  case (Cons t ts)
  have "state (recordFailure t b) = Closed" "failures (recordFailure t b) = failures b + 1"
    "config (recordFailure t b) = config b"
    using Cons.prems by (simp_all add: recordFailure_def Let_def)
  then show ?case using Cons.IH [of "recordFailure t b"] Cons.prems by simp
qed

lemma recordFailures_reach:
  assumes "state b = Closed"
    and "failures b + int (length ts) = failureThreshold (config b)"
    and "ts \<noteq> []"
  shows "state (recordFailures ts b) = Open \<and>
   failures (recordFailures ts b) = failureThreshold (config b) \<and>
   lastFailureTime (recordFailures ts b) = last ts \<and>
   config (recordFailures ts b) = config b"
proof -
  obtain us t where ts: "ts = us @ [t]" using assms(3) by (metis rev_exhaust)
  have b: "state (recordFailures us b) = Closed \<and>
   failures (recordFailures us b) = failures b + int (length us) \<and>
   config (recordFailures us b) = config b"
    using recordFailures_below [of b us] assms ts by simp
  show ?thesis using b assms(2) unfolding ts recordFailures_snoc
    by (simp add: recordFailure_def Let_def)
qed

text \<open>
  C3. Starting from a Closed breaker whose failure count is 0 (a new breaker, or one that
  has just recorded a success or been reset) and with a positive failure threshold:
  fewer than \<open>failureThreshold\<close> calls of \<open>recordFailure\<close> in a row leave the breaker
  Closed with that many failures counted; exactly \<open>failureThreshold\<close> calls leave it Open
  with \<open>lastFailureTime\<close> the time of the last of them, and \<open>isOpen\<close> then answers true
  (and changes nothing) as long as less than \<open>resetTimeout\<close> has passed since that stamp.
  A \<open>recordSuccess\<close> on any Closed breaker sets the failure count to 0 and changes
  nothing else, and with the default configuration fail, fail, success, fail, fail on a
  new breaker ends Closed.
\<close>

theorem breaker_opens_at_threshold:
  assumes "state b = Closed" and "failures b = 0" and "0 < failureThreshold (config b)"
  shows "(int (length ts) < failureThreshold (config b) \<longrightarrow>
            state (recordFailures ts b) = Closed \<and>
            failures (recordFailures ts b) = int (length ts))
       \<and> (int (length ts) = failureThreshold (config b) \<longrightarrow>
            state (recordFailures ts b) = Open \<and>
            lastFailureTime (recordFailures ts b) = last ts \<and>
            (\<forall>now. now - last ts < resetTimeout (config b) \<longrightarrow>
               isOpen now (recordFailures ts b) = (True, recordFailures ts b)))
       \<and> (state c = Closed \<longrightarrow> recordSuccess c = c\<lparr>failures := 0\<rparr>)
       \<and> state (breakerCalls [RecordFailure t1, RecordFailure t2, RecordSuccess,
                    RecordFailure t3, RecordFailure t4] (newCircuitBreaker DEFAULT_CONFIG)) = Closed"
proof (intro conjI impI)
  assume "int (length ts) < failureThreshold (config b)"
  then show "state (recordFailures ts b) = Closed"
    "failures (recordFailures ts b) = int (length ts)"
    using recordFailures_below [of b ts] assms by simp_all
next
  assume l: "int (length ts) = failureThreshold (config b)"
  then have ne: "ts \<noteq> []" using assms(3) by auto
  have r: "state (recordFailures ts b) = Open \<and>
   lastFailureTime (recordFailures ts b) = last ts \<and>
   config (recordFailures ts b) = config b"
    using recordFailures_reach [of b ts] assms l ne by simp
  show "state (recordFailures ts b) = Open" "lastFailureTime (recordFailures ts b) = last ts"
    using r by simp_all
  show "\<forall>now. now - last ts < resetTimeout (config b) \<longrightarrow>
               isOpen now (recordFailures ts b) = (True, recordFailures ts b)"
    using r by (simp add: isOpen_def)
next
  assume "state c = Closed"
  then show "recordSuccess c = c\<lparr>failures := 0\<rparr>" by (simp add: recordSuccess_def)
next
  show "state (breakerCalls [RecordFailure t1, RecordFailure t2, RecordSuccess,
                    RecordFailure t3, RecordFailure t4] (newCircuitBreaker DEFAULT_CONFIG)) = Closed"
    by (simp add: breaker_defs DEFAULT_CONFIG_def Let_def)
qed

theorem breaker_opens_at_threshold_witness:
  "state (recordFailures [10, 20] (newCircuitBreaker DEFAULT_CONFIG)) = Closed
   \<and> state (recordFailures [10, 20, 30] (newCircuitBreaker DEFAULT_CONFIG)) = Open
   \<and> lastFailureTime (recordFailures [10, 20, 30] (newCircuitBreaker DEFAULT_CONFIG)) = 30
   \<and> fst (isOpen 31 (recordFailures [10, 20, 30] (newCircuitBreaker DEFAULT_CONFIG))) = True
   \<and> failures (recordSuccess (recordFailures [10, 20] (newCircuitBreaker DEFAULT_CONFIG))) = 0"
  using breaker_opens_at_threshold [of "newCircuitBreaker DEFAULT_CONFIG" "[10, 20]"
      "recordFailures [10, 20] (newCircuitBreaker DEFAULT_CONFIG)" 0 0 0 0]
    breaker_opens_at_threshold [of "newCircuitBreaker DEFAULT_CONFIG" "[10, 20, 30]"
      "recordFailures [10, 20] (newCircuitBreaker DEFAULT_CONFIG)" 0 0 0 0]
  by (simp add: breaker_defs DEFAULT_CONFIG_def Let_def)

text \<open>
  C4. An Open breaker asked \<open>isOpen\<close> when at least \<open>resetTimeout\<close> has passed since
  \<open>lastFailureTime\<close> becomes Half-Open with \<open>successes\<close> reset to 0 and answers false. In
  Half-Open, a \<open>recordSuccess\<close> that brings \<open>successes\<close> to \<open>successThreshold\<close> gives the
  Closed state with both counters and the time stamp zero (one that does not only counts
  the success), and a \<open>recordFailure\<close> gives Open with \<open>lastFailureTime\<close> the current time:
  \<open>isOpen\<close> answers true until \<open>resetTimeout\<close> has passed again, and the Half-Open state
  that follows starts with \<open>successes\<close> at 0 whatever had been counted before.
\<close>

theorem breaker_recovery_cycle:
  "(state b = Open \<and> now - lastFailureTime b \<ge> resetTimeout (config b) \<longrightarrow>
      isOpen now b = (False, b\<lparr>state := HalfOpen, successes := 0\<rparr>))
 \<and> (state h = HalfOpen \<and> successes h + 1 \<ge> successThreshold (config h) \<longrightarrow>
      recordSuccess h = h\<lparr>state := Closed, failures := 0, successes := 0, lastFailureTime := 0\<rparr>)
 \<and> (state h = HalfOpen \<and> successes h + 1 < successThreshold (config h) \<longrightarrow>
      recordSuccess h = h\<lparr>successes := successes h + 1\<rparr>)
 \<and> (state h = HalfOpen \<longrightarrow>
      state (recordFailure t h) = Open \<and> lastFailureTime (recordFailure t h) = t \<and>
      (\<forall>now'. now' - t < resetTimeout (config h) \<longrightarrow>
          isOpen now' (recordFailure t h) = (True, recordFailure t h)) \<and>
      (\<forall>now'. now' - t \<ge> resetTimeout (config h) \<longrightarrow>
          fst (isOpen now' (recordFailure t h)) = False \<and>
          state (snd (isOpen now' (recordFailure t h))) = HalfOpen \<and>
          successes (snd (isOpen now' (recordFailure t h))) = 0))"
  by (simp add: breaker_defs Let_def)

theorem breaker_recovery_cycle_witness:
  "isOpen 30002 (recordFailures [0, 1, 2] (newCircuitBreaker DEFAULT_CONFIG))
     = (False, \<lparr>state = HalfOpen, failures = 3, successes = 0, lastFailureTime = 2,
                 config = DEFAULT_CONFIG\<rparr>)
   \<and> recordSuccess \<lparr>state = HalfOpen, failures = 3, successes = 0, lastFailureTime = 2,
                 config = DEFAULT_CONFIG\<rparr> = newCircuitBreaker DEFAULT_CONFIG
   \<and> isOpen 30010 (recordFailure 30005 \<lparr>state = HalfOpen, failures = 3, successes = 0,
                 lastFailureTime = 2, config = DEFAULT_CONFIG\<rparr>)
     = (True, \<lparr>state = Open, failures = 4, successes = 0, lastFailureTime = 30005,
                 config = DEFAULT_CONFIG\<rparr>)"
  using breaker_recovery_cycle [of "recordFailures [0, 1, 2] (newCircuitBreaker DEFAULT_CONFIG)"
      30002 "\<lparr>state = HalfOpen, failures = 3, successes = 0, lastFailureTime = 2,
                 config = DEFAULT_CONFIG\<rparr>" 30005]
  by (simp add: breaker_defs Let_def DEFAULT_CONFIG_def)

lemma closed_successes_step:
  "(state b = Closed \<longrightarrow> successes b = 0) \<Longrightarrow>
   (state (breakerCall c b) = Closed \<longrightarrow> successes (breakerCall c b) = 0)"
  by (cases c) (auto simp add: breaker_defs Let_def split: if_splits)

lemma closed_successes_run:
  "(state b = Closed \<longrightarrow> successes b = 0) \<Longrightarrow>
   (state (breakerCalls cs b) = Closed \<longrightarrow> successes (breakerCalls cs b) = 0)"
proof (induction cs arbitrary: b)
  case Nil
  then show ?case by simp
next
  case (Cons c cs)
  show ?case using Cons.IH [OF closed_successes_step [OF Cons.prems]] by simp
qed

lemma sameMeaning_step:
  "sameMeaning b1 b2 \<Longrightarrow> sameMeaning (breakerCall c b1) (breakerCall c b2)"
  by (cases c; cases "state b1"; cases "state b2")
     (auto simp add: sameMeaning_def breaker_defs Let_def split: if_splits)

lemma sameMeaning_isOpen:
  "sameMeaning b1 b2 \<Longrightarrow> fst (isOpen now b1) = fst (isOpen now b2)"
  by (auto simp add: sameMeaning_def breaker_defs Let_def split: if_splits)

lemma entry_resets:
  "(state b \<noteq> HalfOpen \<and> state (breakerCall c b) = HalfOpen \<longrightarrow>
        successes (breakerCall c b) = 0 \<and> failures (breakerCall c b) = failures b)
 \<and> (state b \<noteq> Closed \<and> state (breakerCall c b) = Closed \<longrightarrow>
        failures (breakerCall c b) = 0 \<and> successes (breakerCall c b) = 0)
 \<and> (state b \<noteq> Open \<and> state (breakerCall c b) = Open \<longrightarrow>
        successes (breakerCall c b) = successes b)"
  by (cases c) (auto simp add: breaker_defs Let_def split: if_splits)

text \<open>
  C9, as the claim states it, fails. After three failures on a new default breaker the
  \<open>isOpen\<close> call that is made 30 seconds later enters Half-Open and the failure counter
  still reads 3: entering Half-Open does not reset it. With \<open>successThreshold = 2\<close>, a
  success and then a failure in Half-Open return to Open and the success counter still
  reads 1: returning to Open does not reset it.
\<close>

theorem counters_not_reset_counterexample:
  "state (breakerCalls [RecordFailure 0, RecordFailure 1, RecordFailure 2, IsOpen 30002]
            (newCircuitBreaker DEFAULT_CONFIG)) = HalfOpen
   \<and> failures (breakerCalls [RecordFailure 0, RecordFailure 1, RecordFailure 2, IsOpen 30002]
            (newCircuitBreaker DEFAULT_CONFIG)) = 3
   \<and> state (breakerCalls [RecordFailure 0, RecordFailure 1, RecordFailure 2, IsOpen 30002,
                          RecordSuccess, RecordFailure 30003]
            (newCircuitBreaker (DEFAULT_CONFIG\<lparr>successThreshold := 2\<rparr>))) = Open
   \<and> successes (breakerCalls [RecordFailure 0, RecordFailure 1, RecordFailure 2, IsOpen 30002,
                          RecordSuccess, RecordFailure 30003]
            (newCircuitBreaker (DEFAULT_CONFIG\<lparr>successThreshold := 2\<rparr>))) = 1"
  by (simp add: breaker_defs Let_def DEFAULT_CONFIG_def)

text \<open>
  C9, amended. The counters are reset on entry to the state that reads them, not on
  leaving it. For every method call on every breaker: a call that enters Half-Open leaves
  \<open>successes\<close> at 0 and does not touch \<open>failures\<close>; a call that enters Closed leaves both
  counters at 0; a call that enters Open does not touch \<open>successes\<close>. The failure counter
  is meaningful only in Closed and the success counter only in Half-Open: two breakers
  that agree on the state, the time stamp, the configuration and the counter of their
  state still do so after the same call, and \<open>isOpen\<close> gives them the same answer. In every
  state reachable from a new breaker, \<open>successes\<close> is 0 whenever the state is Closed.
\<close>

theorem counters_reset_on_entry:
  "(state b \<noteq> HalfOpen \<and> state (breakerCall c b) = HalfOpen \<longrightarrow>
        successes (breakerCall c b) = 0 \<and> failures (breakerCall c b) = failures b)
 \<and> (state b \<noteq> Closed \<and> state (breakerCall c b) = Closed \<longrightarrow>
        failures (breakerCall c b) = 0 \<and> successes (breakerCall c b) = 0)
 \<and> (state b \<noteq> Open \<and> state (breakerCall c b) = Open \<longrightarrow>
        successes (breakerCall c b) = successes b)
 \<and> (sameMeaning b1 b2 \<longrightarrow>
        sameMeaning (breakerCall c b1) (breakerCall c b2) \<and>
        fst (isOpen now b1) = fst (isOpen now b2))
 \<and> (state (breakerCalls cs (newCircuitBreaker cfg)) = Closed \<longrightarrow>
        successes (breakerCalls cs (newCircuitBreaker cfg)) = 0)"
  using entry_resets [of b c] sameMeaning_step [of b1 b2 c] sameMeaning_isOpen [of b1 b2 now]
    closed_successes_run [of "newCircuitBreaker cfg" cs]
  by (simp add: newCircuitBreaker_def)

theorem counters_reset_on_entry_witness:
  "successes (breakerCall (IsOpen 30002)
       \<lparr>state = Open, failures = 3, successes = 5, lastFailureTime = 2,
        config = DEFAULT_CONFIG\<rparr>) = 0
   \<and> failures (breakerCall (IsOpen 30002)
       \<lparr>state = Open, failures = 3, successes = 5, lastFailureTime = 2,
        config = DEFAULT_CONFIG\<rparr>) = 3
   \<and> sameMeaning
       (breakerCall (IsOpen 30002)
          \<lparr>state = Open, failures = 3, successes = 5, lastFailureTime = 2,
           config = DEFAULT_CONFIG\<rparr>)
       (breakerCall (IsOpen 30002)
          \<lparr>state = Open, failures = 7, successes = 0, lastFailureTime = 2,
           config = DEFAULT_CONFIG\<rparr>)
   \<and> successes (breakerCalls [RecordFailure 0, RecordSuccess] (newCircuitBreaker DEFAULT_CONFIG)) = 0"
  using counters_reset_on_entry [of
      "\<lparr>state = Open, failures = 3, successes = 5, lastFailureTime = 2, config = DEFAULT_CONFIG\<rparr>"
      "IsOpen 30002"
      "\<lparr>state = Open, failures = 3, successes = 5, lastFailureTime = 2, config = DEFAULT_CONFIG\<rparr>"
      "\<lparr>state = Open, failures = 7, successes = 0, lastFailureTime = 2, config = DEFAULT_CONFIG\<rparr>"
      30002 "[RecordFailure 0, RecordSuccess]" DEFAULT_CONFIG]
  by (simp add: breaker_defs Let_def DEFAULT_CONFIG_def sameMeaning_def)

lemma recordFailure_stays_open:
  "state b = Open \<Longrightarrow> state (recordFailure t b) = Open \<and> lastFailureTime (recordFailure t b) = t
     \<and> config (recordFailure t b) = config b"
  by (simp add: recordFailure_def Let_def)

lemma recordFailures_stay_open:
  "state b = Open \<Longrightarrow> state (recordFailures ts b) = Open \<and> config (recordFailures ts b) = config b
     \<and> lastFailureTime (recordFailures ts b) = (if ts = [] then lastFailureTime b else last ts)"
proof (induction ts rule: rev_induct)
  case Nil
  then show ?case by simp
next
  case (snoc t ts)
  then show ?case using recordFailure_stays_open [of "recordFailures ts b" t]
    by (simp add: recordFailures_snoc)
qed

text \<open>
  C10. Every \<open>recordFailure\<close> on an Open breaker leaves it Open and stamps
  \<open>lastFailureTime\<close> with the current time. After any such calls, \<open>isOpen\<close> answers true
  exactly as long as less than \<open>resetTimeout\<close> has passed since the last of them, and
  enters Half-Open exactly when at least \<open>resetTimeout\<close> has passed since the last of
  them: the time of the failure that opened the breaker no longer counts.
\<close>

theorem open_failures_postpone_recovery:
  assumes "state b = Open" and "ts \<noteq> []"
  shows "state (recordFailures ts b) = Open
       \<and> lastFailureTime (recordFailures ts b) = last ts
       \<and> (fst (isOpen now (recordFailures ts b)) \<longleftrightarrow> now - last ts < resetTimeout (config b))
       \<and> (state (snd (isOpen now (recordFailures ts b))) = HalfOpen
            \<longleftrightarrow> now - last ts \<ge> resetTimeout (config b))"
  using recordFailures_stay_open [OF assms(1), of ts] assms(2)
  by (auto simp add: isOpen_def)

theorem open_failures_postpone_recovery_witness:
  "fst (isOpen 30000 \<lparr>state = Open, failures = 3, successes = 0, lastFailureTime = 0,
                 config = DEFAULT_CONFIG\<rparr>) = False
   \<and> fst (isOpen 30000 (recordFailures [20000] \<lparr>state = Open, failures = 3, successes = 0,
                 lastFailureTime = 0, config = DEFAULT_CONFIG\<rparr>)) = True
   \<and> fst (isOpen 50000 (recordFailures [20000] \<lparr>state = Open, failures = 3, successes = 0,
                 lastFailureTime = 0, config = DEFAULT_CONFIG\<rparr>)) = False"
  using open_failures_postpone_recovery [of "\<lparr>state = Open, failures = 3, successes = 0,
                 lastFailureTime = 0, config = DEFAULT_CONFIG\<rparr>" "[20000]" 30000]
    open_failures_postpone_recovery [of "\<lparr>state = Open, failures = 3, successes = 0,
                 lastFailureTime = 0, config = DEFAULT_CONFIG\<rparr>" "[20000]" 50000]
  by (simp add: breaker_defs Let_def DEFAULT_CONFIG_def)

section \<open>Properties of the request batcher\<close>

lemmas batcher_defs = batcherQuery_def flush_def flushResume_def clear_def timerFires_def
  setTimeout_def clearTimeout_def newRequestBatcher_def Let_def

lemma arrivals_append: "arrivals (es @ fs) = arrivals es @ arrivals fs"
  by (induction es rule: arrivals.induct) simp_all

lemma chunkInv_query:
  assumes "chunkInv cfg arrived w"
  shows "chunkInv cfg (arrived @ [u]) (batcherQuery u c w)"
proof (cases "int (length (queue w)) + 1 \<ge> maxSize cfg")
  case True
  moreover from assms have "int (length (queue w)) < maxSize cfg"
    by (simp add: chunkInv_def)
  ultimately have len: "nat (maxSize cfg) = Suc (length (queue w))"
    by linarith
  show ?thesis using assms True len
    by (auto simp add: chunkInv_def batcherQuery_def flush_def clearTimeout_def Let_def
        split: option.splits)
next
  case False
  then show ?thesis using assms
    by (auto simp add: chunkInv_def batcherQuery_def setTimeout_def Let_def
        split: option.splits)
qed

lemma chunkInv_resume:
  assumes "chunkInv cfg arrived w"
  shows "chunkInv cfg arrived (flushResume cid outcome w)"
  using assms
  by (auto simp add: chunkInv_def flushResume_def setTimeout_def Let_def
      split: option.splits)

lemma chunkInv_step:
  "chunkInv cfg arrived w \<Longrightarrow> beforeMaxWait e \<Longrightarrow>
   chunkInv cfg (arrived @ arrivals [e]) (batcherStep e w)"
  by (cases e) (simp_all add: chunkInv_query chunkInv_resume)

lemma chunkInv_run:
  "chunkInv cfg arrived w \<Longrightarrow> list_all beforeMaxWait es \<Longrightarrow>
   chunkInv cfg (arrived @ arrivals es) (batcherRun es w)"
proof (induction es arbitrary: w arrived)
  case Nil
  then show ?case by simp
next
  case (Cons e es)
  have "chunkInv cfg (arrived @ arrivals [e]) (batcherStep e w)"
    using Cons.prems by (simp add: chunkInv_step)
  from Cons.IH [OF this] Cons.prems(2)
  have "chunkInv cfg ((arrived @ arrivals [e]) @ arrivals es) (batcherRun es (batcherStep e w))"
    by simp
  moreover have "arrivals (e # es) = arrivals [e] @ arrivals es"
    using arrivals_append [of "[e]" es] by simp
  ultimately show ?case by simp
qed

lemma chunkInv_new: "0 < maxSize cfg \<Longrightarrow> chunkInv cfg [] (newRequestBatcher cfg)"
  by (simp add: chunkInv_def newRequestBatcher_def)

lemma flush_takes_front:
  assumes "queue w \<noteq> []"
  shows "queue (flush w) = drop (nat (maxSize (batchConfig w))) (queue w)
       \<and> inFlight (flush w) =
           inFlight w @ [(length (executorCalls w), take (nat (maxSize (batchConfig w))) (queue w))]
       \<and> executorCalls (flush w) =
           executorCalls w @ [map url (take (nat (maxSize (batchConfig w))) (queue w))]"
  using assms by (simp add: flush_def clearTimeout_def Let_def split: option.splits)

lemma timerFires_flushes:
  assumes "h \<in> fst ` set (timers w)" and "queue w \<noteq> []"
  shows "queue (timerFires h w) = drop (nat (maxSize (batchConfig w))) (queue w)
       \<and> executorCalls (timerFires h w) =
           executorCalls w @ [map url (take (nat (maxSize (batchConfig w))) (queue w))]"
  using assms by (simp add: timerFires_def flush_def clearTimeout_def Let_def split: option.splits)

lemma resume_reschedules:
  assumes "map_of (inFlight w) cid = Some batch" and "queue w \<noteq> []"
  shows "flushTimeout (flushResume cid outcome w) = Some (nextHandle w)
       \<and> timers (flushResume cid outcome w) = timers w @ [(nextHandle w, maxWait (batchConfig w))]
       \<and> queue (flushResume cid outcome w) = queue w
       \<and> batchConfig (flushResume cid outcome w) = batchConfig w
       \<and> executorCalls (flushResume cid outcome w) = executorCalls w"
  using assms by (simp add: flushResume_def setTimeout_def Let_def)

lemma length_concat_chunks:
  "list_all (\<lambda>c. int (length c) = int m) cs \<Longrightarrow> length (concat cs) = length cs * m"
  by (induction cs) simp_all

text \<open>
  C5. (1) A flush of a non-empty queue takes the first \<open>maxSize\<close> entries (none when
  \<open>maxSize\<close> is negative) as its batch, in arrival order, calls the executor once with
  their URLs and leaves the rest queued: batch followed by the new queue is the old queue.
  (2) With a positive \<open>maxSize\<close>, after any arrivals and executor completions on a new
  batcher during which no timer fires, the executor has been called once for each full
  chunk of \<open>maxSize\<close> arrived URLs, in arrival order, the fewer than \<open>maxSize\<close> remaining
  URLs are queued, and when some are queued a timer with delay \<open>maxWait\<close> is held whose
  firing sends them as one more executor call and empties the queue. (3) When a flush
  completes (its executor call settles either way) and the queue is not empty, a new timer
  with delay \<open>maxWait\<close> is armed and held, and its firing calls the executor with the
  front of the queue.
\<close>

theorem batcher_chunking:
  assumes "0 < maxSize cfg" and "list_all beforeMaxWait es"
  shows "(queue v \<noteq> [] \<longrightarrow>
            queue (flush v) = drop (nat (maxSize (batchConfig v))) (queue v) \<and>
            inFlight (flush v) = inFlight v @
              [(length (executorCalls v), take (nat (maxSize (batchConfig v))) (queue v))] \<and>
            executorCalls (flush v) = executorCalls v @
              [map url (take (nat (maxSize (batchConfig v))) (queue v))] \<and>
            take (nat (maxSize (batchConfig v))) (queue v) @ queue (flush v) = queue v \<and>
            int (length (take (nat (maxSize (batchConfig v))) (queue v)))
              \<le> max 0 (maxSize (batchConfig v)))
       \<and> concat (executorCalls (batcherRun es (newRequestBatcher cfg)))
            @ map url (queue (batcherRun es (newRequestBatcher cfg))) = arrivals es
       \<and> list_all (\<lambda>c. int (length c) = maxSize cfg)
            (executorCalls (batcherRun es (newRequestBatcher cfg)))
       \<and> int (length (queue (batcherRun es (newRequestBatcher cfg)))) < maxSize cfg
       \<and> length (executorCalls (batcherRun es (newRequestBatcher cfg)))
            = length (arrivals es) div nat (maxSize cfg)
       \<and> (queue (batcherRun es (newRequestBatcher cfg)) \<noteq> [] \<longrightarrow>
            (\<exists>h. flushTimeout (batcherRun es (newRequestBatcher cfg)) = Some h \<and>
                 (h, maxWait cfg) \<in> set (timers (batcherRun es (newRequestBatcher cfg))) \<and>
                 executorCalls (timerFires h (batcherRun es (newRequestBatcher cfg)))
                   = executorCalls (batcherRun es (newRequestBatcher cfg))
                     @ [map url (queue (batcherRun es (newRequestBatcher cfg)))] \<and>
                 queue (timerFires h (batcherRun es (newRequestBatcher cfg))) = []))
       \<and> (map_of (inFlight v) cid = Some batch \<and> queue v \<noteq> [] \<longrightarrow>
            flushTimeout (flushResume cid outcome v) = Some (nextHandle v) \<and>
            timers (flushResume cid outcome v)
              = timers v @ [(nextHandle v, maxWait (batchConfig v))] \<and>
            executorCalls (timerFires (nextHandle v) (flushResume cid outcome v))
              = executorCalls v @ [map url (take (nat (maxSize (batchConfig v))) (queue v))])"
proof -
  define w where "w = batcherRun es (newRequestBatcher cfg)"
  have inv: "chunkInv cfg (arrivals es) w"
    using chunkInv_run [OF chunkInv_new [OF assms(1)] assms(2)] by (simp add: w_def)
  have cfg: "batchConfig w = cfg"
    and cat: "concat (executorCalls w) @ map url (queue w) = arrivals es"
    and full: "list_all (\<lambda>c. int (length c) = maxSize cfg) (executorCalls w)"
    and short: "int (length (queue w)) < maxSize cfg"
    using inv by (simp_all add: chunkInv_def)
  have p1: "queue v \<noteq> [] \<longrightarrow>
            queue (flush v) = drop (nat (maxSize (batchConfig v))) (queue v) \<and>
            inFlight (flush v) = inFlight v @
              [(length (executorCalls v), take (nat (maxSize (batchConfig v))) (queue v))] \<and>
            executorCalls (flush v) = executorCalls v @
              [map url (take (nat (maxSize (batchConfig v))) (queue v))] \<and>
            take (nat (maxSize (batchConfig v))) (queue v) @ queue (flush v) = queue v \<and>
            int (length (take (nat (maxSize (batchConfig v))) (queue v)))
              \<le> max 0 (maxSize (batchConfig v))"
    using flush_takes_front [of v] by auto
  have count: "length (executorCalls w) = length (arrivals es) div nat (maxSize cfg)"
  proof -
    have "list_all (\<lambda>c. int (length c) = int (nat (maxSize cfg))) (executorCalls w)"
      using full assms(1) by simp
    then have "length (concat (executorCalls w)) = length (executorCalls w) * nat (maxSize cfg)"
      by (rule length_concat_chunks)
    moreover have "length (arrivals es) = length (concat (executorCalls w)) + length (queue w)"
      using cat [symmetric] by simp
    moreover have "length (queue w) < nat (maxSize cfg)" using short by linarith
    ultimately show ?thesis by simp
  qed
  have p3: "queue w \<noteq> [] \<longrightarrow>
            (\<exists>h. flushTimeout w = Some h \<and> (h, maxWait cfg) \<in> set (timers w) \<and>
                 executorCalls (timerFires h w) = executorCalls w @ [map url (queue w)] \<and>
                 queue (timerFires h w) = [])"
  proof
    assume ne: "queue w \<noteq> []"
    then obtain h where h: "flushTimeout w = Some h" "(h, maxWait cfg) \<in> set (timers w)"
      using inv by (auto simp add: chunkInv_def split: option.splits)
    have "h \<in> fst ` set (timers w)" using h(2) by force
    from timerFires_flushes [OF this ne] cfg short
    have "executorCalls (timerFires h w) = executorCalls w @ [map url (queue w)]"
      "queue (timerFires h w) = []"
      by simp_all
    with h show "\<exists>h. flushTimeout w = Some h \<and> (h, maxWait cfg) \<in> set (timers w) \<and>
                 executorCalls (timerFires h w) = executorCalls w @ [map url (queue w)] \<and>
                 queue (timerFires h w) = []"
      by blast
  qed
  have p4: "map_of (inFlight v) cid = Some batch \<and> queue v \<noteq> [] \<longrightarrow>
            flushTimeout (flushResume cid outcome v) = Some (nextHandle v) \<and>
            timers (flushResume cid outcome v)
              = timers v @ [(nextHandle v, maxWait (batchConfig v))] \<and>
            executorCalls (timerFires (nextHandle v) (flushResume cid outcome v))
              = executorCalls v @ [map url (take (nat (maxSize (batchConfig v))) (queue v))]"
  proof
    assume a: "map_of (inFlight v) cid = Some batch \<and> queue v \<noteq> []"
    then have r: "flushTimeout (flushResume cid outcome v) = Some (nextHandle v)"
      "timers (flushResume cid outcome v) = timers v @ [(nextHandle v, maxWait (batchConfig v))]"
      "queue (flushResume cid outcome v) = queue v"
      "batchConfig (flushResume cid outcome v) = batchConfig v"
      "executorCalls (flushResume cid outcome v) = executorCalls v"
      using resume_reschedules [of v cid batch outcome] by simp_all
    have "nextHandle v \<in> fst ` set (timers (flushResume cid outcome v))"
      using r(2) by simp
    from timerFires_flushes [OF this] a r
    show "flushTimeout (flushResume cid outcome v) = Some (nextHandle v) \<and>
            timers (flushResume cid outcome v)
              = timers v @ [(nextHandle v, maxWait (batchConfig v))] \<and>
            executorCalls (timerFires (nextHandle v) (flushResume cid outcome v))
              = executorCalls v @ [map url (take (nat (maxSize (batchConfig v))) (queue v))]"
      by simp
  qed
  show ?thesis
    using p1 cat full short count p3 p4 unfolding w_def by blast
qed

theorem batcher_chunking_witness:
  "executorCalls (batcherRun
       [Query ''a'' 0, Query ''b'' 1, ExecutorDone 0 (Inr Map.empty), Query ''c'' 2,
        Query ''d'' 3, Query ''e'' 4]
       (newRequestBatcher \<lparr>maxSize = 2, maxWait = 50\<rparr>)) = [[''a'', ''b''], [''c'', ''d'']]
   \<and> map url (queue (batcherRun
       [Query ''a'' 0, Query ''b'' 1, ExecutorDone 0 (Inr Map.empty), Query ''c'' 2,
        Query ''d'' 3, Query ''e'' 4]
       (newRequestBatcher \<lparr>maxSize = 2, maxWait = 50\<rparr>))) = [''e'']
   \<and> flushTimeout (batcherRun
       [Query ''a'' 0, Query ''b'' 1, ExecutorDone 0 (Inr Map.empty), Query ''c'' 2,
        Query ''d'' 3, Query ''e'' 4]
       (newRequestBatcher \<lparr>maxSize = 2, maxWait = 50\<rparr>)) = Some 2
   \<and> executorCalls (timerFires 2 (batcherRun
       [Query ''a'' 0, Query ''b'' 1, ExecutorDone 0 (Inr Map.empty), Query ''c'' 2,
        Query ''d'' 3, Query ''e'' 4]
       (newRequestBatcher \<lparr>maxSize = 2, maxWait = 50\<rparr>)))
       = [[''a'', ''b''], [''c'', ''d''], [''e'']]"
  using batcher_chunking [of "\<lparr>maxSize = 2, maxWait = 50\<rparr>"
      "[Query ''a'' 0, Query ''b'' 1, ExecutorDone 0 (Inr Map.empty), Query ''c'' 2,
        Query ''d'' 3, Query ''e'' 4]"
      "batcherRun [Query ''a'' 0] (newRequestBatcher \<lparr>maxSize = 2, maxWait = 50\<rparr>)"
      0 "[]" "Inr Map.empty"]
  by (simp add: batcher_defs)

lemma resolveAll_map:
  "resolveAll results batch =
     map (\<lambda>r. (caller r, Resolve (case results (url r) of Some x \<Rightarrow> x
        | None \<Rightarrow> \<lparr>known = False, data = None, confidence = None, fallback = None\<rparr>))) batch"
  by (induction batch) (simp_all add: UNKNOWN_def split: option.splits)

lemma rejectAll_map: "rejectAll e batch = map (\<lambda>r. (caller r, Reject e)) batch"
  by (induction batch) simp_all

lemma resolveFallback_map: "resolveFallback q = map (\<lambda>r. (caller r, Resolve FALLBACK)) q"
  by (induction q) simp_all

lemma map_of_filter_out: "map_of (filter (\<lambda>f. fst f \<noteq> k) xs) k = None"
  by (induction xs) auto

text \<open>
  C6. When the executor call of a flushed batch settles: on success every request of the
  batch, in order, is resolved with the map's entry for its URL when there is one and with
  \<^verbatim>\<open>{known: false}\<close> when there is none; on failure every request of the batch is
  rejected with that same error, and the batcher does not retry: the executor is not called
  again, the batch is not put back in the queue and the suspended flush is gone.
\<close>

theorem batch_fan_out:
  assumes "map_of (inFlight w) cid = Some batch"
  shows "settlements (flushResume cid (Inr results) w) =
           settlements w @
           map (\<lambda>r. (caller r,
                  Resolve (case results (url r) of
                             Some result \<Rightarrow> result
                           | None \<Rightarrow> \<lparr>known = False, data = None, confidence = None,
                                       fallback = None\<rparr>))) batch
       \<and> settlements (flushResume cid (Inl e) w) =
           settlements w @ map (\<lambda>r. (caller r, Reject e)) batch
       \<and> executorCalls (flushResume cid (Inl e) w) = executorCalls w
       \<and> queue (flushResume cid (Inl e) w) = queue w
       \<and> map_of (inFlight (flushResume cid (Inl e) w)) cid = None"
  using assms
  by (simp add: flushResume_def Let_def setTimeout_def resolveAll_map rejectAll_map
      map_of_filter_out split: prod.splits)

theorem batch_fan_out_witness:
  "settlements (flushResume 0
      (Inr (map_of [(''a'', \<lparr>known = True, data = Some [(''title'', ''X'')], confidence = None,
                            fallback = None\<rparr>)]))
      (batcherRun [Query ''a'' 0, Query ''b'' 1, TimerFires 0]
         (newRequestBatcher DEFAULT_BATCH_CONFIG)))
     = [(0, Resolve \<lparr>known = True, data = Some [(''title'', ''X'')], confidence = None,
                     fallback = None\<rparr>),
        (1, Resolve \<lparr>known = False, data = None, confidence = None, fallback = None\<rparr>)]
   \<and> settlements (flushResume 0 (Inl (Error ''timeout''))
      (batcherRun [Query ''a'' 0, Query ''b'' 1, TimerFires 0]
         (newRequestBatcher DEFAULT_BATCH_CONFIG)))
     = [(0, Reject (Error ''timeout'')), (1, Reject (Error ''timeout''))]"
  using batch_fan_out [of "batcherRun [Query ''a'' 0, Query ''b'' 1, TimerFires 0]
         (newRequestBatcher DEFAULT_BATCH_CONFIG)" 0
      "[\<lparr>url = ''a'', caller = 0\<rparr>, \<lparr>url = ''b'', caller = 1\<rparr>]"
      "map_of [(''a'', \<lparr>known = True, data = Some [(''title'', ''X'')], confidence = None,
                            fallback = None\<rparr>)]" "Error ''timeout''"]
  by (simp add: batcher_defs DEFAULT_BATCH_CONFIG_def)

text \<open>
  What \<open>clear\<close> does do, in every state: each queued request is resolved with
  \<^verbatim>\<open>{known: false, fallback: true}\<close> at once and none is rejected, the queue is emptied,
  the timer held in \<open>flushTimeout\<close> is cancelled, and the flushes whose executor call is
  outstanding are left as they are.
\<close>

lemma clear_settles_queue:
  "settlements (clear w) = settlements w @ map (\<lambda>r. (caller r, Resolve FALLBACK)) (queue w)
   \<and> queue (clear w) = [] \<and> flushTimeout (clear w) = None
   \<and> inFlight (clear w) = inFlight w \<and> executorCalls (clear w) = executorCalls w
   \<and> (case flushTimeout w of Some h \<Rightarrow> h \<notin> fst ` set (timers (clear w)) | None \<Rightarrow> True)"
  by (auto simp add: clear_def clearTimeout_def Let_def resolveFallback_map split: option.splits)

text \<open>
  C7 fails on the code in one respect: \<open>clear\<close> does not cancel every pending flush
  timer. With the default configuration, \<^verbatim>\<open>query("a")\<close> arms timer 0; it fires and the
  flush awaits the executor; \<^verbatim>\<open>query("b")\<close> arrives meanwhile and arms timer 1, since
  \<open>flushTimeout\<close> is empty; the executor call settles and the flush, finding the queue not
  empty, arms timer 2 and overwrites \<open>flushTimeout\<close> without clearing timer 1. Then
  \<open>clear\<close> cancels timer 2 only and timer 1 stays armed (the queued caller is resolved with
  the fallback, as claimed). When a later \<^verbatim>\<open>query("c")\<close> has arrived, the firing of timer
  1 flushes it ahead of its own timer.
\<close>

theorem clear_leaves_orphan_timer:
  "timers (batcherRun [Query ''a'' 0, TimerFires 0, Query ''b'' 1, ExecutorDone 0 (Inr Map.empty)]
             (newRequestBatcher DEFAULT_BATCH_CONFIG)) = [(1, 50), (2, 50)]
   \<and> flushTimeout (batcherRun [Query ''a'' 0, TimerFires 0, Query ''b'' 1,
                               ExecutorDone 0 (Inr Map.empty)]
             (newRequestBatcher DEFAULT_BATCH_CONFIG)) = Some 2
   \<and> timers (batcherRun [Query ''a'' 0, TimerFires 0, Query ''b'' 1,
                          ExecutorDone 0 (Inr Map.empty), Clear]
             (newRequestBatcher DEFAULT_BATCH_CONFIG)) = [(1, 50)]
   \<and> settlements (batcherRun [Query ''a'' 0, TimerFires 0, Query ''b'' 1,
                          ExecutorDone 0 (Inr Map.empty), Clear]
             (newRequestBatcher DEFAULT_BATCH_CONFIG))
       = [(0, Resolve UNKNOWN), (1, Resolve FALLBACK)]
   \<and> executorCalls (batcherRun [Query ''a'' 0, TimerFires 0, Query ''b'' 1,
                          ExecutorDone 0 (Inr Map.empty), Clear, Query ''c'' 2, TimerFires 1]
             (newRequestBatcher DEFAULT_BATCH_CONFIG)) = [[''a''], [''c'']]"
  by (simp add: batcher_defs DEFAULT_BATCH_CONFIG_def)

section \<open>Properties of the knowledge client\<close>

text \<open>
  C8. \<open>clientQuery\<close> always returns a result and never throws: with the circuit open it
  returns \<^verbatim>\<open>{known: false, fallback: true}\<close> and makes no call to the batcher; otherwise a
  rejection of the batcher's promise is turned into that same fallback and a fulfilment
  is passed on. \<open>learn\<close> always returns a response and never throws: with learning
  disabled it returns the rejected response, touches nothing and calls nothing; with the
  circuit open it returns the rejected response and does not call the backend; when the
  backend call succeeds it records a success on the breaker and returns the backend's
  response; when the backend call fails it records a failure on the breaker and returns
  the rejected response. (An exception of the \<^verbatim>\<open>extractForLearning\<close> callback is caught by
  the same handler: failure recorded, rejected response, no backend call.)
\<close>

theorem client_containment:
  "(\<exists>r. fst (clientQuery now u batcherOutcome c) = Inr r)
 \<and> (fst (isOpen now (circuitBreaker c)) \<longrightarrow>
       fst (clientQuery now u batcherOutcome c) =
         Inr \<lparr>known = False, data = None, confidence = None, fallback = Some True\<rparr> \<and>
       snd (snd (clientQuery now u batcherOutcome c)) = [])
 \<and> (\<not> fst (isOpen now (circuitBreaker c)) \<and> batcherOutcome u = Inl e \<longrightarrow>
       fst (clientQuery now u batcherOutcome c) =
         Inr \<lparr>known = False, data = None, confidence = None, fallback = Some True\<rparr>)
 \<and> (\<not> fst (isOpen now (circuitBreaker c)) \<and> batcherOutcome u = Inr result \<longrightarrow>
       fst (clientQuery now u batcherOutcome c) = Inr result)
 \<and> (\<exists>r. fst (learn now later u d makeRequest c) = Inr r)
 \<and> (\<not> configLearning c \<longrightarrow>
       learn now later u d makeRequest c = (Inr \<lparr>status = rejected, learned = 0\<rparr>, c, []))
 \<and> (fst (isOpen now (circuitBreaker c)) \<longrightarrow>
       fst (learn now later u d makeRequest c) = Inr \<lparr>status = rejected, learned = 0\<rparr> \<and>
       snd (snd (learn now later u d makeRequest c)) = [])
 \<and> (configLearning c \<and> \<not> fst (isOpen now (circuitBreaker c)) \<and>
     extractForLearning c = None \<and> makeRequest u d = Inr response \<longrightarrow>
       learn now later u d makeRequest c =
         (Inr response,
          c\<lparr>circuitBreaker := recordSuccess (snd (isOpen now (circuitBreaker c)))\<rparr>,
          [LearnRequestCall u d]))
 \<and> (configLearning c \<and> \<not> fst (isOpen now (circuitBreaker c)) \<and>
     extractForLearning c = None \<and> makeRequest u d = Inl e \<longrightarrow>
       learn now later u d makeRequest c =
         (Inr \<lparr>status = rejected, learned = 0\<rparr>,
          c\<lparr>circuitBreaker := recordFailure later (snd (isOpen now (circuitBreaker c)))\<rparr>,
          [LearnRequestCall u d]))
 \<and> (configLearning c \<and> \<not> fst (isOpen now (circuitBreaker c)) \<and>
     extractForLearning c = Some f \<and> f d = Inr x \<and> makeRequest u x = Inr response \<longrightarrow>
       learn now later u d makeRequest c =
         (Inr response,
          c\<lparr>circuitBreaker := recordSuccess (snd (isOpen now (circuitBreaker c)))\<rparr>,
          [LearnRequestCall u x]))
 \<and> (configLearning c \<and> \<not> fst (isOpen now (circuitBreaker c)) \<and>
     extractForLearning c = Some f \<and> f d = Inr x \<and> makeRequest u x = Inl e \<longrightarrow>
       learn now later u d makeRequest c =
         (Inr \<lparr>status = rejected, learned = 0\<rparr>,
          c\<lparr>circuitBreaker := recordFailure later (snd (isOpen now (circuitBreaker c)))\<rparr>,
          [LearnRequestCall u x]))
 \<and> (configLearning c \<and> \<not> fst (isOpen now (circuitBreaker c)) \<and>
     extractForLearning c = Some f \<and> f d = Inl e \<longrightarrow>
       learn now later u d makeRequest c =
         (Inr \<lparr>status = rejected, learned = 0\<rparr>,
          c\<lparr>circuitBreaker := recordFailure later (snd (isOpen now (circuitBreaker c)))\<rparr>,
          []))"
  by (auto simp add: clientQuery_def learn_def FALLBACK_def REJECTED_def
      split: prod.splits sum.splits option.splits)

theorem client_containment_witness:
  "clientQuery 5 ''u'' (\<lambda>u. Inl (Error ''network''))
      \<lparr>configLearning = True, extractForLearning = None,
       circuitBreaker = newCircuitBreaker DEFAULT_CONFIG\<rparr>
     = (Inr \<lparr>known = False, data = None, confidence = None, fallback = Some True\<rparr>,
        \<lparr>configLearning = True, extractForLearning = None,
         circuitBreaker = newCircuitBreaker DEFAULT_CONFIG\<rparr>,
        [BatcherQueryCall ''u''])
   \<and> clientQuery 5 ''u'' (\<lambda>u. Inl (Error ''network''))
      \<lparr>configLearning = True, extractForLearning = None,
       circuitBreaker = recordFailures [0, 1, 2] (newCircuitBreaker DEFAULT_CONFIG)\<rparr>
     = (Inr \<lparr>known = False, data = None, confidence = None, fallback = Some True\<rparr>,
        \<lparr>configLearning = True, extractForLearning = None,
         circuitBreaker = recordFailures [0, 1, 2] (newCircuitBreaker DEFAULT_CONFIG)\<rparr>,
        [])
   \<and> learn 5 6 ''u'' [(''title'', ''X'')] (\<lambda>u d. Inl (Error ''timeout''))
      \<lparr>configLearning = True, extractForLearning = None,
       circuitBreaker = newCircuitBreaker DEFAULT_CONFIG\<rparr>
     = (Inr \<lparr>status = rejected, learned = 0\<rparr>,
        \<lparr>configLearning = True, extractForLearning = None,
         circuitBreaker = recordFailure 6 (newCircuitBreaker DEFAULT_CONFIG)\<rparr>,
        [LearnRequestCall ''u'' [(''title'', ''X'')]])
   \<and> learn 5 6 ''u'' [(''title'', ''X'')] (\<lambda>u d. Inl (Error ''timeout''))
      \<lparr>configLearning = False, extractForLearning = None,
       circuitBreaker = newCircuitBreaker DEFAULT_CONFIG\<rparr>
     = (Inr \<lparr>status = rejected, learned = 0\<rparr>,
        \<lparr>configLearning = False, extractForLearning = None,
         circuitBreaker = newCircuitBreaker DEFAULT_CONFIG\<rparr>, [])"
  using client_containment [where c = "\<lparr>configLearning = True, extractForLearning = None,
         circuitBreaker = newCircuitBreaker DEFAULT_CONFIG\<rparr>" and now = 5 and later = 6
       and u = "''u''" and d = "[(''title'', ''X'')]" and e = "Error ''timeout''"
       and makeRequest = "\<lambda>u d. Inl (Error ''timeout'')"
       and batcherOutcome = "\<lambda>u. Inl (Error ''network'')"]
    client_containment [where c = "\<lparr>configLearning = False, extractForLearning = None,
         circuitBreaker = newCircuitBreaker DEFAULT_CONFIG\<rparr>" and now = 5 and later = 6
       and u = "''u''" and d = "[(''title'', ''X'')]"
       and makeRequest = "\<lambda>u d. Inl (Error ''timeout'')"]
  by (simp add: clientQuery_def learn_def FALLBACK_def REJECTED_def isOpen_def recordFailure_def
      newCircuitBreaker_def DEFAULT_CONFIG_def Let_def)

section \<open>Properties of the handler wrapper\<close>








text \<open>
  C2, as the claim states it, fails: a known result that carries no data is not skipped.
  With \<^verbatim>\<open>alwaysRun: false\<close> and the query result \<^verbatim>\<open>{known: true}\<close> the original handler
  is executed, and what reaches the sink is what the handler pushes.
\<close>

theorem known_without_data_runs_handler_counterexample:
  "wrappedHandler \<lparr>learning = None, alwaysRun = Some (Flag False)\<rparr>
     \<lparr>known = True, data = None, confidence = None, fallback = None\<rparr>
     \<lparr>requestUrl = ''https://example.com/known'', requestLabel = None,
      contextPushDataField = Some (\<lambda>d. None)\<rparr>
     (\<lambda>ai. ContextPushData [(''title'', ''scraped'')] (\<lambda>r. Return))
   = ([HandlerEntered, SinkPush [(''title'', ''scraped'')]], None)"
  by (simp add: wrappedHandler_def shouldRunHandler_def contextPushData_def Let_def)

text \<open>
  C2, amended. With \<open>alwaysRun\<close> unset or false and a query result that is known and
  carries data, the original handler is not executed: when the context has a
  \<^verbatim>\<open>pushData\<close>, the wrapper calls it exactly once, with the known data, and that call is
  all the wrapper does (an error of the sink is passed on); when the context has none,
  the wrapper does nothing. A known result without data is not skipped: the original
  handler is executed.
\<close>

theorem skip_path_known_with_data:
  assumes "alwaysRun cfg = None \<or> alwaysRun cfg = Some (Flag False)"
    and "known ai" and "data ai = Some d"
  shows "(contextPushDataField hctx = Some sink \<longrightarrow>
            wrappedHandler cfg ai hctx originalHandler = ([SinkPush d], sink d))
       \<and> (contextPushDataField hctx = None \<longrightarrow>
            wrappedHandler cfg ai hctx originalHandler = ([], None))
       \<and> HandlerEntered \<notin> set (fst (wrappedHandler cfg ai hctx originalHandler))
       \<and> (known ai' \<and> data ai' = None \<longrightarrow>
            (\<exists>es r. wrappedHandler cfg ai' hctx originalHandler = (HandlerEntered # es, r)))"
  using assms
  by (auto simp add: wrappedHandler_def shouldRunHandler_def Let_def
      split: option.splits prod.splits)

theorem skip_path_known_with_data_witness:
  "wrappedHandler \<lparr>learning = Some True, alwaysRun = Some (Flag False)\<rparr>
     \<lparr>known = True, data = Some [(''title'', ''Known Product'')], confidence = None,
      fallback = None\<rparr>
     \<lparr>requestUrl = ''https://example.com/known'', requestLabel = None,
      contextPushDataField = Some (\<lambda>d. None)\<rparr>
     (\<lambda>ai. ContextPushData [(''title'', ''scraped'')] (\<lambda>r. Return))
   = ([SinkPush [(''title'', ''Known Product'')]], None)
   \<and> sinkPushes (fst (wrappedHandler \<lparr>learning = Some True, alwaysRun = Some (Flag False)\<rparr>
     \<lparr>known = True, data = Some [(''title'', ''Known Product'')], confidence = None,
      fallback = None\<rparr>
     \<lparr>requestUrl = ''https://example.com/known'', requestLabel = None,
      contextPushDataField = Some (\<lambda>d. None)\<rparr>
     (\<lambda>ai. ContextPushData [(''title'', ''scraped'')] (\<lambda>r. Return))))
   = [[(''title'', ''Known Product'')]]"
  using skip_path_known_with_data [where
      cfg = "\<lparr>learning = Some True, alwaysRun = Some (Flag False)\<rparr>"
      and ai = "\<lparr>known = True, data = Some [(''title'', ''Known Product'')], confidence = None,
                 fallback = None\<rparr>"
      and d = "[(''title'', ''Known Product'')]"
      and hctx = "\<lparr>requestUrl = ''https://example.com/known'', requestLabel = None,
                      contextPushDataField = Some (\<lambda>d. None)\<rparr>"
      and sink = "\<lambda>d. None"
      and originalHandler = "\<lambda>ai. ContextPushData [(''title'', ''scraped'')] (\<lambda>r. Return)"]
  by simp

end
